theory Spec2Isabelle
  imports Main "HOL-Library.Sublist"
begin

section \<open>Data model\<close>

text \<open>
  The monitor of \<^verbatim>\<open>src/monitor/scheduler.py\<close> and the store of
  \<^verbatim>\<open>src/monitor/db.py\<close>. Python dictionaries with string keys whose keys are
  fixed by the code are records of optional fields (\<open>None\<close> for an absent key; the
  search provider sends no null under a key the monitor reads); the free-form search
  parameters are a map.
\<close>

type_synonym params = "string \<rightharpoonup> string"

text \<open>
  What a call can raise. \<open>ValueError\<close> is the one exception the monitor raises itself;
  \<open>Exception\<close> stands for any other subclass of Python's \<^verbatim>\<open>Exception\<close> coming out of
  a collaborator (the search client, the MongoDB driver, the registered callback).
\<close>

datatype exn = ValueError string | Exception string

text \<open>One entry of \<^verbatim>\<open>results['organic_results']\<close>.\<close>

record organic_result =
  r_position :: "int option"
  r_link :: "string option"
  r_title :: "string option"
  r_snippet :: "string option"

text \<open>\<^verbatim>\<open>results['search_information']\<close>.\<close>

record search_information =
  si_total_results :: "int option"

text \<open>
  The dictionary returned by \<^verbatim>\<open>GoogleSearch(params).get_dict()\<close>, restricted to the two
  keys the monitor reads. \<open>empty_dict\<close> is \<^verbatim>\<open>{}\<close>.
\<close>

record response =
  organic_results :: "organic_result list option"
  search_information :: "search_information option"

definition empty_dict :: response where
  "empty_dict = \<lparr>organic_results = None, search_information = None\<rparr>"

text \<open>The dictionary built by \<^verbatim>\<open>check_domain_ranking\<close>.\<close>

record ranking_data =
  found :: bool
  position :: "int option"
  link :: "string option"
  title :: "string option"
  snippet :: "string option"
  total_results :: "int option"
  rd_search_params :: params

text \<open>The document written by \<^verbatim>\<open>save_ranking\<close>: the ranking data and its key and time.\<close>

record document = ranking_data +
  keyword :: string
  domain :: string
  timestamp :: nat

text \<open>The dictionary handed to the change callback.\<close>

record change_info =
  ci_keyword :: string
  ci_domain :: string
  previous_position :: "int option"
  current_position :: "int option"
  ci_timestamp :: nat

datatype thread = Thread

record monitor =
  api_key :: string
  interval_minutes :: int
  keywords' :: "string list"
  domains :: "string list"
  search_params :: params
  running :: bool
  thread :: "thread option"
  stop_event :: bool
  on_change_callback :: "(change_info \<Rightarrow> exn option) option"

subsection \<open>The world outside the monitor\<close>

text \<open>
  Each \<^verbatim>\<open>print\<close> of the source is a message carrying the values it interpolates; the
  banner of three lines around a cycle is one message.
\<close>

datatype message =
    Configured nat nat
  | Interval int
  | ErrorSearching string exn
  | Checking string string
  | FoundAt "int option" "string option"
  | DomainNotFound string
  | SavedRecord string string nat
  | CycleStarting nat
  | CycleCompleted nat
  | RankingChanged "int option" "int option"
  | ErrorInLoop exn
  | AlreadyRunning
  | RunningInitialCheck
  | MonitorStarted int
  | NotRunning
  | StoppingMonitor
  | MonitorStopped

text \<open>Everything the monitor does to its surroundings, in the order it does it.\<close>

datatype effect =
    Print message
  | GetDict params
  | InsertOne document
  | Find string string nat
  | Callback change_info
  | Sleep nat
  | Wait int
  | ThreadStart
  | ThreadJoin nat

text \<open>
  The state shared with the outside: the \<^verbatim>\<open>keyword_rankings\<close> collection in insertion
  order, the wall clock read by \<^verbatim>\<open>datetime.now()\<close>, and the effects so far.
\<close>

record world =
  collection :: "document list"
  clock :: nat
  trace :: "effect list"

text \<open>
  The collaborators, which the monitor does not control: what the search client answers
  or raises for given parameters at a given time, and whether the driver raises on an
  insert or a query at a given time.
\<close>

record env =
  get_dict :: "nat \<Rightarrow> params \<Rightarrow> exn + response"
  insert_one_error :: "nat \<Rightarrow> exn option"
  find_error :: "nat \<Rightarrow> exn option"

definition emit :: "effect \<Rightarrow> world \<Rightarrow> world" where
  "emit e w = w\<lparr>trace := trace w @ [e]\<rparr>"

definition print :: "message \<Rightarrow> world \<Rightarrow> world" where
  "print msg w = emit (Print msg) w"

text \<open>\<^verbatim>\<open>datetime.now()\<close>: every reading is later than the one before.\<close>

definition datetime_now :: "world \<Rightarrow> nat \<times> world" where
  "datetime_now w = (clock w, w\<lparr>clock := Suc (clock w)\<rparr>)"

section \<open>The rank checker\<close>

text \<open>Python's \<^verbatim>\<open>domain in link\<close> on two strings.\<close>

fun starts_with :: "string \<Rightarrow> string \<Rightarrow> bool" where
  "starts_with [] s = True"
| "starts_with (c # cs) [] = False"
| "starts_with (c # cs) (x # xs) = (c = x \<and> starts_with cs xs)"

fun str_in :: "string \<Rightarrow> string \<Rightarrow> bool" where
  "str_in d [] = (d = [])"
| "str_in d (x # xs) = (starts_with d (x # xs) \<or> str_in d xs)"

text \<open>\<^verbatim>\<open>KeywordMonitor.__init__\<close>\<close>

definition KeywordMonitor :: "string \<Rightarrow> int \<Rightarrow> monitor" where
  "KeywordMonitor key minutes =
     \<lparr>api_key = key, interval_minutes = minutes, keywords' = [], domains = [],
      search_params = Map.empty, running = False, thread = None, stop_event = False,
      on_change_callback = None\<rparr>"

text \<open>\<^verbatim>\<open>KeywordMonitor.search_keyword\<close>: the \<^verbatim>\<open>try\<close> turns any exception into \<^verbatim>\<open>{}\<close>.\<close>

definition request :: "monitor \<Rightarrow> string \<Rightarrow> params" where
  "request m kw = [''api_key'' \<mapsto> api_key m, ''q'' \<mapsto> kw] ++ search_params m"

definition search_keyword :: "env \<Rightarrow> monitor \<Rightarrow> string \<Rightarrow> world \<Rightarrow> response \<times> world" where
  "search_keyword env m kw w =
     (let ps = request m kw;
          w1 = emit (GetDict ps) w
      in case get_dict env (clock w) ps of
           Inr results \<Rightarrow> (results, w1)
         | Inl e \<Rightarrow> (empty_dict, print (ErrorSearching kw e) w1))"

text \<open>\<^verbatim>\<open>results.get('search_information', {}).get('total_results')\<close>\<close>

definition get_total_results :: "response \<Rightarrow> int option" where
  "get_total_results results =
     (case search_information results of None \<Rightarrow> None | Some si \<Rightarrow> si_total_results si)"

text \<open>\<^verbatim>\<open>'link' in result and domain in result['link']\<close>\<close>

definition link_matches :: "string \<Rightarrow> organic_result \<Rightarrow> bool" where
  "link_matches dn result =
     (case r_link result of None \<Rightarrow> False | Some l \<Rightarrow> str_in dn l)"

definition not_found :: "monitor \<Rightarrow> response \<Rightarrow> ranking_data" where
  "not_found m results =
     \<lparr>found = False, position = None, link = None, title = None, snippet = None,
      total_results = get_total_results results, rd_search_params = search_params m\<rparr>"

text \<open>The \<^verbatim>\<open>for result in results['organic_results']\<close> loop, which returns at the first match.\<close>

fun for_result ::
  "monitor \<Rightarrow> response \<Rightarrow> string \<Rightarrow> organic_result list \<Rightarrow> world \<Rightarrow> ranking_data option \<times> world"
where
  "for_result m results dn [] w = (None, w)"
| "for_result m results dn (result # rest) w =
     (if link_matches dn result then
        (Some \<lparr>found = True, position = r_position result, link = r_link result,
               title = r_title result, snippet = r_snippet result,
               total_results = get_total_results results,
               rd_search_params = search_params m\<rparr>,
         print (FoundAt (r_position result) (r_link result)) w)
      else for_result m results dn rest w)"

text \<open>\<^verbatim>\<open>KeywordMonitor.check_domain_ranking\<close>\<close>

definition check_domain_ranking ::
  "env \<Rightarrow> monitor \<Rightarrow> string \<Rightarrow> string \<Rightarrow> world \<Rightarrow> ranking_data \<times> world"
where
  "check_domain_ranking env m kw dn w =
     (let w1 = print (Checking kw dn) w;
          (results, w2) = search_keyword env m kw w1
      in if results = empty_dict \<or> organic_results results = None then
           (not_found m results, w2)
         else
           (case for_result m results dn (the (organic_results results)) w2 of
              (Some ranking, w3) \<Rightarrow> (ranking, w3)
            | (None, w3) \<Rightarrow> (not_found m results, print (DomainNotFound dn) w3)))"

section \<open>The store\<close>

text \<open>
  \<^verbatim>\<open>MongoDBHandler.save_ranking\<close>: the document takes its timestamp from the clock and
  is appended to the collection, unless the driver raises. The id returned is the
  document's place in the collection.
\<close>

definition save_ranking ::
  "env \<Rightarrow> string \<Rightarrow> string \<Rightarrow> ranking_data \<Rightarrow> world \<Rightarrow> (exn + nat) \<times> world"
where
  "save_ranking env kw dn rd w =
     (let (now, w1) = datetime_now w;
          doc = \<lparr>found = found rd, position = position rd, link = link rd,
                 title = title rd, snippet = snippet rd,
                 total_results = total_results rd,
                 rd_search_params = rd_search_params rd,
                 keyword = kw, domain = dn, timestamp = now\<rparr>;
          w2 = emit (InsertOne doc) w1
      in case insert_one_error env (clock w2) of
           Some e \<Rightarrow> (Inl e, w2)
         | None \<Rightarrow>
             (let inserted_id = length (collection w2);
                  w3 = w2\<lparr>collection := collection w2 @ [doc]\<rparr>
              in (Inr inserted_id, print (SavedRecord kw dn inserted_id) w3)))"

text \<open>
  \<^verbatim>\<open>find({"keyword": keyword, "domain": domain})\<close>,
  \<^verbatim>\<open>.sort("timestamp", DESCENDING)\<close> and \<^verbatim>\<open>.limit(limit)\<close>, where a limit of 0
  is no limit. Among documents of equal timestamp, whose order MongoDB leaves open, the
  one inserted later comes first.
\<close>

definition find_docs :: "string \<Rightarrow> string \<Rightarrow> document list \<Rightarrow> document list" where
  "find_docs kw dn docs = filter (\<lambda>d. keyword d = kw \<and> domain d = dn) docs"

definition sort_descending :: "document list \<Rightarrow> document list" where
  "sort_descending docs = rev (sort_key timestamp docs)"

definition limit_docs :: "nat \<Rightarrow> document list \<Rightarrow> document list" where
  "limit_docs n docs = (if n = 0 then docs else take n docs)"

text \<open>\<^verbatim>\<open>MongoDBHandler.get_ranking_history\<close>\<close>

definition get_ranking_history ::
  "env \<Rightarrow> string \<Rightarrow> string \<Rightarrow> nat \<Rightarrow> world \<Rightarrow> (exn + document list) \<times> world"
where
  "get_ranking_history env kw dn limit w =
     (let w1 = emit (Find kw dn limit) w
      in case find_error env (clock w1) of
           Some e \<Rightarrow> (Inl e, w1)
         | None \<Rightarrow>
             (Inr (limit_docs limit (sort_descending (find_docs kw dn (collection w1)))), w1))"

section \<open>The change detector\<close>

text \<open>\<^verbatim>\<open>KeywordMonitor._check_changes\<close>\<close>

definition check_changes ::
  "env \<Rightarrow> monitor \<Rightarrow> string \<Rightarrow> string \<Rightarrow> ranking_data \<Rightarrow> world \<Rightarrow> (exn + unit) \<times> world"
where
  "check_changes env m kw dn current_data w =
     (case get_ranking_history env kw dn 2 w of
        (Inl e, w1) \<Rightarrow> (Inl e, w1)
      | (Inr history, w1) \<Rightarrow>
          if 2 \<le> length history then
            (let previous = history ! 1;
                 current_pos = position current_data;
                 previous_pos = position previous
             in if current_pos \<noteq> previous_pos then
                  (let (now, w2) = datetime_now w1;
                       info = \<lparr>ci_keyword = kw, ci_domain = dn,
                               previous_position = previous_pos,
                               current_position = current_pos,
                               ci_timestamp = now\<rparr>;
                       w3 = print (RankingChanged previous_pos current_pos) w2
                   in case on_change_callback m of
                        None \<Rightarrow> (Inr (), w3)
                      | Some callback \<Rightarrow>
                          (case callback info of
                             Some e \<Rightarrow> (Inl e, emit (Callback info) w3)
                           | None \<Rightarrow> (Inr (), emit (Callback info) w3)))
                else (Inr (), w1))
          else (Inr (), w1))"

text \<open>\<^verbatim>\<open>KeywordMonitor.on_change\<close>\<close>

definition on_change :: "(change_info \<Rightarrow> exn option) \<Rightarrow> monitor \<Rightarrow> monitor" where
  "on_change callback m = m\<lparr>on_change_callback := Some callback\<rparr>"

section \<open>The scheduler\<close>

text \<open>\<^verbatim>\<open>KeywordMonitor.configure\<close>\<close>

definition default_search_params :: params where
  "default_search_params =
     [''engine'' \<mapsto> ''google'', ''google_domain'' \<mapsto> ''google.com'', ''gl'' \<mapsto> ''us'',
      ''hl'' \<mapsto> ''en'', ''location'' \<mapsto> ''United States'']"

definition configure ::
  "string list \<Rightarrow> string list \<Rightarrow> params \<Rightarrow> monitor \<Rightarrow> world \<Rightarrow> (exn + unit) \<times> monitor \<times> world"
where
  "configure kws dns overrides m w =
     (let m1 = m\<lparr>keywords' := kws, domains := dns,
                  search_params := default_search_params ++ overrides\<rparr>;
          w1 = print (Configured (length kws) (length dns)) w;
          w2 = print (Interval (interval_minutes m1)) w1
      in (Inr (), m1, w2))"

text \<open>
  \<^verbatim>\<open>KeywordMonitor.check_all\<close>: the inner and the outer \<^verbatim>\<open>for\<close> loop. Nothing in
  them catches an exception, so the first one raised by the store or the callback ends
  both loops.
\<close>

fun for_domain ::
  "env \<Rightarrow> monitor \<Rightarrow> string \<Rightarrow> string list \<Rightarrow> world \<Rightarrow> (exn + unit) \<times> world"
where
  "for_domain env m kw [] w = (Inr (), w)"
| "for_domain env m kw (dn # rest) w =
     (let (ranking, w1) = check_domain_ranking env m kw dn w
      in case save_ranking env kw dn ranking w1 of
           (Inl e, w2) \<Rightarrow> (Inl e, w2)
         | (Inr _, w2) \<Rightarrow>
             (case check_changes env m kw dn ranking w2 of
                (Inl e, w3) \<Rightarrow> (Inl e, w3)
              | (Inr _, w3) \<Rightarrow> for_domain env m kw rest (emit (Sleep 1) w3)))"

fun for_keyword ::
  "env \<Rightarrow> monitor \<Rightarrow> string list \<Rightarrow> world \<Rightarrow> (exn + unit) \<times> world"
where
  "for_keyword env m [] w = (Inr (), w)"
| "for_keyword env m (kw # rest) w =
     (case for_domain env m kw (domains m) w of
        (Inl e, w1) \<Rightarrow> (Inl e, w1)
      | (Inr _, w1) \<Rightarrow> for_keyword env m rest w1)"

definition check_all :: "env \<Rightarrow> monitor \<Rightarrow> world \<Rightarrow> (exn + unit) \<times> world" where
  "check_all env m w =
     (let (t0, w1) = datetime_now w;
          w2 = print (CycleStarting t0) w1
      in case for_keyword env m (keywords' m) w2 of
           (Inl e, w3) \<Rightarrow> (Inl e, w3)
         | (Inr _, w3) \<Rightarrow>
             (let (t1, w4) = datetime_now w3
              in (Inr (), print (CycleCompleted t1) w4)))"

text \<open>
  \<^verbatim>\<open>KeywordMonitor._monitor_loop\<close>, the body of the background thread. The loop has
  no bound of its own; the list gives, for each pass, whether the stop event has been
  set by the time the wait of that pass returns (another thread sets it), and the loop
  is followed for as many passes as the list is long. \<open>Exited\<close> is the loop leaving
  through its \<^verbatim>\<open>while\<close> test, \<open>Looping\<close> the loop still alive after the last pass.
\<close>

datatype loop_state = Exited | Looping

fun monitor_loop ::
  "env \<Rightarrow> bool list \<Rightarrow> monitor \<Rightarrow> world \<Rightarrow> loop_state \<times> monitor \<times> world"
where
  "monitor_loop env [] m w = ((if stop_event m then Exited else Looping), m, w)"
| "monitor_loop env (stop_set # later) m w =
     (if stop_event m then (Exited, m, w)
      else
        (let w2 = (case check_all env m w of
                     (Inl e, w1) \<Rightarrow> print (ErrorInLoop e) w1
                   | (Inr _, w1) \<Rightarrow> w1);
             w3 = emit (Wait (interval_minutes m * 60)) w2
         in monitor_loop env later (m\<lparr>stop_event := stop_set\<rparr>) w3))"

text \<open>
  \<^verbatim>\<open>KeywordMonitor.start\<close>. The thread it starts runs \<open>monitor_loop\<close> on the monitor
  and world it leaves behind.
\<close>

definition start ::
  "env \<Rightarrow> bool \<Rightarrow> monitor \<Rightarrow> world \<Rightarrow> (exn + unit) \<times> monitor \<times> world"
where
  "start env run_immediately m w =
     (if running m then (Inr (), m, print AlreadyRunning w)
      else if keywords' m = [] \<or> domains m = [] then
        (Inl (ValueError ''Please configure keywords and domains first''), m, w)
      else
        (let m1 = m\<lparr>running := True, stop_event := False\<rparr>;
             (r, w1) = (if run_immediately
                        then check_all env m1 (print RunningInitialCheck w)
                        else (Inr (), w))
         in case r of
              Inl e \<Rightarrow> (Inl e, m1, w1)
            | Inr _ \<Rightarrow>
                (let m2 = m1\<lparr>thread := Some Thread\<rparr>;
                     w2 = emit ThreadStart w1
                 in (Inr (), m2, print (MonitorStarted (interval_minutes m2)) w2))))"

text \<open>\<^verbatim>\<open>KeywordMonitor.stop\<close>\<close>

definition stop :: "monitor \<Rightarrow> world \<Rightarrow> (exn + unit) \<times> monitor \<times> world" where
  "stop m w =
     (if \<not> running m then (Inr (), m, print NotRunning w)
      else
        (let w1 = print StoppingMonitor w;
             m1 = m\<lparr>running := False, stop_event := True\<rparr>;
             w2 = (if thread m1 \<noteq> None then emit (ThreadJoin 5) w1 else w1)
         in (Inr (), m1, print MonitorStopped w2)))"

text \<open>\<^verbatim>\<open>KeywordMonitor.run_once\<close>\<close>

definition run_once :: "env \<Rightarrow> monitor \<Rightarrow> world \<Rightarrow> (exn + unit) \<times> monitor \<times> world" where
  "run_once env m w = (case check_all env m w of (r, w1) \<Rightarrow> (r, m, w1))"

section \<open>Reading a trace\<close>

text \<open>
  The effects that mark the rhythm of the scheduler: the banner opening a cycle, the
  banner closing it, the report of the loop that a cycle raised, the start of the
  background thread, and the wait on the stop event between two cycles.
\<close>

datatype phase = CycleBegin | CycleEnd | CycleFailed | ThreadStarted | IntervalWait

fun phase_of :: "effect \<Rightarrow> phase option" where
  "phase_of (Print (CycleStarting t)) = Some CycleBegin"
| "phase_of (Print (CycleCompleted t)) = Some CycleEnd"
| "phase_of (Print (ErrorInLoop e)) = Some CycleFailed"
| "phase_of ThreadStart = Some ThreadStarted"
| "phase_of (Wait s) = Some IntervalWait"
| "phase_of e = None"

definition phases :: "effect list \<Rightarrow> phase list" where
  "phases tr = List.map_filter phase_of tr"

text \<open>The calls to the search client in a trace.\<close>

fun is_probe :: "effect \<Rightarrow> bool" where
  "is_probe (GetDict ps) = True"
| "is_probe e = False"

definition probes :: "effect list \<Rightarrow> nat" where
  "probes tr = length (filter is_probe tr)"

text \<open>The (keyword, domain) key of every stored document, in insertion order.\<close>

definition stored_keys :: "world \<Rightarrow> (string \<times> string) list" where
  "stored_keys w = map (\<lambda>d. (keyword d, domain d)) (collection w)"

text \<open>A store that never raises, and a monitor whose callback, if any, never raises.\<close>

definition store_reliable :: "env \<Rightarrow> bool" where
  "store_reliable env \<longleftrightarrow>
     (\<forall>t. insert_one_error env t = None) \<and> (\<forall>t. find_error env t = None)"

definition callback_safe :: "monitor \<Rightarrow> bool" where
  "callback_safe m \<longleftrightarrow>
     (case on_change_callback m of
        None \<Rightarrow> True
      | Some callback \<Rightarrow> \<forall>info. callback info = None)"

text \<open>Whether every organic result of an answer of the search client carries a position.\<close>

definition positions_present :: "exn + response \<Rightarrow> bool" where
  "positions_present answer =
     (case answer of
        Inl e \<Rightarrow> True
      | Inr results \<Rightarrow>
          (case organic_results results of
             None \<Rightarrow> True
           | Some rs \<Rightarrow> list_all (\<lambda>r. r_position r \<noteq> None) rs))"

section \<open>Concrete inputs\<close>

definition new_world :: world where
  "new_world = \<lparr>collection = [], clock = 0, trace = []\<rparr>"

definition shop_results :: response where
  "shop_results =
     \<lparr>organic_results = Some
        [\<lparr>r_position = Some 1, r_link = Some ''https://other.org/'',
          r_title = Some ''Other'', r_snippet = None\<rparr>,
         \<lparr>r_position = Some 2, r_link = Some ''https://shop.example.com/dataget.ai/page'',
          r_title = Some ''Shop'', r_snippet = Some ''Buy''\<rparr>,
         \<lparr>r_position = Some 3, r_link = Some ''https://dataget.ai/'',
          r_title = Some ''Home'', r_snippet = None\<rparr>],
      search_information = Some \<lparr>si_total_results = Some 1000\<rparr>\<rparr>"

text \<open>A search client that always answers \<open>shop_results\<close>, and a store that never fails.\<close>

definition shop_env :: env where
  "shop_env =
     \<lparr>get_dict = (\<lambda>t ps. Inr shop_results),
      insert_one_error = (\<lambda>t. None), find_error = (\<lambda>t. None)\<rparr>"

text \<open>A search client that always raises.\<close>

definition down_env :: env where
  "down_env =
     \<lparr>get_dict = (\<lambda>t ps. Inl (Exception ''timeout'')),
      insert_one_error = (\<lambda>t. None), find_error = (\<lambda>t. None)\<rparr>"



text \<open>A store whose insert always fails.\<close>

definition broken_store_env :: env where
  "broken_store_env =
     \<lparr>get_dict = (\<lambda>t ps. Inr shop_results),
      insert_one_error = (\<lambda>t. Some (Exception ''write failed'')),
      find_error = (\<lambda>t. None)\<rparr>"

text \<open>An answer whose only result has a link and no position.\<close>

definition bare_link_env :: env where
  "bare_link_env =
     \<lparr>get_dict = (\<lambda>t ps. Inr
        \<lparr>organic_results = Some
           [\<lparr>r_position = None, r_link = Some ''https://d.com/x'',
             r_title = None, r_snippet = None\<rparr>],
         search_information = None\<rparr>),
      insert_one_error = (\<lambda>t. None), find_error = (\<lambda>t. None)\<rparr>"

definition fresh_monitor :: monitor where
  "fresh_monitor = KeywordMonitor ''key'' 60"

definition one_pair_monitor :: monitor where
  "one_pair_monitor = fresh_monitor\<lparr>keywords' := [''k''], domains := [''dataget.ai'']\<rparr>"


definition running_monitor :: monitor where
  "running_monitor = one_pair_monitor\<lparr>running := True, thread := Some Thread\<rparr>"

text \<open>A fresh observation at a given position.\<close>

definition ranked :: "int option \<Rightarrow> ranking_data" where
  "ranked p =
     \<lparr>found = (p \<noteq> None), position = p, link = None, title = None, snippet = None,
      total_results = None, rd_search_params = Map.empty\<rparr>"

text \<open>A stored observation of a pair at a given position and time.\<close>

definition stored_doc :: "string \<Rightarrow> string \<Rightarrow> int option \<Rightarrow> nat \<Rightarrow> document" where
  "stored_doc kw dn p t =
     \<lparr>found = (p \<noteq> None), position = p, link = None, title = None, snippet = None,
      total_results = None, rd_search_params = Map.empty,
      keyword = kw, domain = dn, timestamp = t\<rparr>"

text \<open>
  A collection holding observations of three pairs, inserted at growing times: two of
  the pair (k, d.com), at positions 5 and then 7, with one of another domain between
  them and one of another keyword after them.
\<close>

definition mixed_world :: world where
  "mixed_world =
     \<lparr>collection =
        [stored_doc ''k'' ''d.com'' (Some 5) 1, stored_doc ''k'' ''other.org'' (Some 9) 2,
         stored_doc ''k'' ''d.com'' (Some 7) 3, stored_doc ''j'' ''d.com'' None 4],
      clock = 5, trace = []\<rparr>"

section \<open>Facts about the rank checker\<close>

lemma starts_with_prefix: "starts_with d l \<longleftrightarrow> prefix d l"
  by (induction d l rule: starts_with.induct) auto

lemma str_in_sublist: "str_in d l \<longleftrightarrow> sublist d l"
  by (induction l) (auto simp: starts_with_prefix sublist_Cons_right)

lemma link_matches_iff: "link_matches dn r \<longleftrightarrow> (\<exists>l. r_link r = Some l \<and> sublist dn l)"
  by (simp add: link_matches_def str_in_sublist split: option.splits)

lemma clock_emit [simp]: "clock (emit e w) = clock w"
  by (simp add: emit_def)

lemma clock_print [simp]: "clock (print msg w) = clock w"
  by (simp add: print_def)

lemma collection_emit [simp]: "collection (emit e w) = collection w"
  by (simp add: emit_def)

lemma collection_print [simp]: "collection (print msg w) = collection w"
  by (simp add: print_def)

lemma trace_emit [simp]: "trace (emit e w) = trace w @ [e]"
  by (simp add: emit_def)

lemma trace_print [simp]: "trace (print msg w) = trace w @ [Print msg]"
  by (simp add: print_def)

text \<open>The loop over the results is a search for the first result whose link matches.\<close>

lemma for_result_find:
  "for_result m results dn rs w =
     (case find (link_matches dn) rs of
        None \<Rightarrow> (None, w)
      | Some r \<Rightarrow>
          (Some \<lparr>found = True, position = r_position r, link = r_link r,
                 title = r_title r, snippet = r_snippet r,
                 total_results = get_total_results results,
                 rd_search_params = search_params m\<rparr>,
           print (FoundAt (r_position r) (r_link r)) w))"
  by (induction rs) auto

lemma find_link_matches:
  "find (link_matches dn) rs = Some r \<Longrightarrow> r \<in> set rs \<and> r_link r \<noteq> None"
  by (induction rs) (auto simp: link_matches_def split: if_splits option.splits)

lemma search_keyword_result:
  "fst (search_keyword env m kw w) =
     (case get_dict env (clock w) (request m kw) of
        Inr results \<Rightarrow> results
      | Inl e \<Rightarrow> empty_dict)"
  by (simp add: search_keyword_def Let_def split: sum.splits)

lemma check_domain_ranking_result:
  "fst (check_domain_ranking env m kw dn w) =
     (let results = (case get_dict env (clock w) (request m kw) of
                       Inr results \<Rightarrow> results
                     | Inl e \<Rightarrow> empty_dict)
      in case organic_results results of
           None \<Rightarrow> not_found m results
         | Some rs \<Rightarrow>
             (case find (link_matches dn) rs of
                None \<Rightarrow> not_found m results
              | Some r \<Rightarrow>
                  \<lparr>found = True, position = r_position r, link = r_link r,
                   title = r_title r, snippet = r_snippet r,
                   total_results = get_total_results results,
                   rd_search_params = search_params m\<rparr>))"
  by (auto simp: check_domain_ranking_def search_keyword_def Let_def for_result_find
      empty_dict_def split: sum.splits option.splits prod.splits)

text \<open>
  Claim C5. When the search client answers with a non-empty list of organic results,
  the observation is built from the first result, in the order given, whose link has the
  domain as a substring of the raw string (\<open>sublist\<close>: some characters, the domain,
  some characters; no normalisation and no change of case); when no link contains the
  domain the observation is a "not found" one whose total is the one of the answer's
  search information, or null when there is none.
\<close>

theorem check_domain_ranking_first_match:
  assumes "get_dict env (clock w) (request m kw) = Inr results"
    and "organic_results results = Some rs"
    and "rs \<noteq> []"
  shows "fst (check_domain_ranking env m kw dn w) =
     (case find (\<lambda>r. \<exists>l. r_link r = Some l \<and> sublist dn l) rs of
        Some r \<Rightarrow>
          \<lparr>found = True, position = r_position r, link = r_link r,
           title = r_title r, snippet = r_snippet r,
           total_results =
             (case search_information results of
                None \<Rightarrow> None
              | Some si \<Rightarrow> si_total_results si),
           rd_search_params = search_params m\<rparr>
      | None \<Rightarrow>
          \<lparr>found = False, position = None, link = None, title = None, snippet = None,
           total_results =
             (case search_information results of
                None \<Rightarrow> None
              | Some si \<Rightarrow> si_total_results si),
           rd_search_params = search_params m\<rparr>)"
proof -
  have "link_matches dn = (\<lambda>r. \<exists>l. r_link r = Some l \<and> sublist dn l)"
    by (rule ext) (rule link_matches_iff)
  then show ?thesis
    using assms
    by (simp add: check_domain_ranking_result not_found_def get_total_results_def
        split: option.splits)
qed

theorem check_domain_ranking_first_match_witness:
  "get_dict shop_env (clock new_world) (request one_pair_monitor ''k'') = Inr shop_results
   \<and> organic_results shop_results \<noteq> Some []
   \<and> fst (check_domain_ranking shop_env one_pair_monitor ''k'' ''dataget.ai'' new_world) =
       \<lparr>found = True, position = Some 2,
        link = Some ''https://shop.example.com/dataget.ai/page'',
        title = Some ''Shop'', snippet = Some ''Buy'', total_results = Some 1000,
        rd_search_params = search_params one_pair_monitor\<rparr>"
proof -
  have a: "get_dict shop_env (clock new_world) (request one_pair_monitor ''k'') = Inr shop_results"
    by (simp add: shop_env_def)
  have b: "organic_results shop_results = Some (the (organic_results shop_results))"
    by (simp add: shop_results_def)
  have c: "the (organic_results shop_results) \<noteq> []"
    by (simp add: shop_results_def)
  show ?thesis
    using check_domain_ranking_first_match [OF a b c, of "''dataget.ai''"] a
    by (simp add: shop_results_def str_in_sublist [symmetric])
qed

text \<open>
  Claim C6. When the call to the search client raises, \<open>search_keyword\<close> catches the
  exception and returns the empty dictionary, and the observation is the "not found"
  one: position, link, title, snippet and total all null. Neither function has a way to
  raise: their results are plain values.
\<close>

theorem probe_error_degrades_to_not_found:
  assumes "get_dict env (clock w) (request m kw) = Inl e"
  shows "fst (check_domain_ranking env m kw dn w) =
           \<lparr>found = False, position = None, link = None, title = None, snippet = None,
            total_results = None, rd_search_params = search_params m\<rparr>
         \<and> fst (search_keyword env m kw w) = empty_dict"
  using assms
  by (simp add: check_domain_ranking_result search_keyword_result not_found_def
      get_total_results_def empty_dict_def)

theorem probe_error_degrades_to_not_found_witness:
  "get_dict down_env (clock new_world) (request one_pair_monitor ''k'') = Inl (Exception ''timeout'')
   \<and> found (fst (check_domain_ranking down_env one_pair_monitor ''k'' ''dataget.ai'' new_world)) = False
   \<and> position (fst (check_domain_ranking down_env one_pair_monitor ''k'' ''dataget.ai'' new_world)) = None"
proof -
  have a: "get_dict down_env (clock new_world) (request one_pair_monitor ''k'') = Inl (Exception ''timeout'')"
    by (simp add: down_env_def)
  show ?thesis
    using probe_error_degrades_to_not_found [OF a, of "''dataget.ai''"] a by simp
qed

text \<open>
  Claim C7, as stated, fails: a result that has a link and no \<^verbatim>\<open>position\<close> key gives
  an observation with \<open>found\<close> true and a null position, since the position is read with
  \<^verbatim>\<open>result.get('position')\<close>.
\<close>

theorem found_with_null_position_counterexample:
  "found (fst (check_domain_ranking bare_link_env one_pair_monitor ''k'' ''d.com'' new_world))
   \<and> position (fst (check_domain_ranking bare_link_env one_pair_monitor ''k'' ''d.com'' new_world)) = None"
  by (simp add: check_domain_ranking_result bare_link_env_def link_matches_def)

text \<open>
  Claim C7, amended. An observation with \<open>found\<close> false has position, link, title and
  snippet null; one with \<open>found\<close> true has a link; and it has a position provided every
  organic result of the answer carries one.
\<close>

theorem check_domain_ranking_invariant:
  "(\<not> found (fst (check_domain_ranking env m kw dn w)) \<longrightarrow>
      position (fst (check_domain_ranking env m kw dn w)) = None
      \<and> link (fst (check_domain_ranking env m kw dn w)) = None
      \<and> title (fst (check_domain_ranking env m kw dn w)) = None
      \<and> snippet (fst (check_domain_ranking env m kw dn w)) = None)
   \<and> (found (fst (check_domain_ranking env m kw dn w)) \<longrightarrow>
      link (fst (check_domain_ranking env m kw dn w)) \<noteq> None)
   \<and> (found (fst (check_domain_ranking env m kw dn w))
        \<and> positions_present (get_dict env (clock w) (request m kw)) \<longrightarrow>
      position (fst (check_domain_ranking env m kw dn w)) \<noteq> None)"
  by (auto simp: check_domain_ranking_result not_found_def positions_present_def Let_def
      empty_dict_def list_all_iff
      split: sum.splits option.splits dest!: find_link_matches)

theorem check_domain_ranking_invariant_witness:
  "found (fst (check_domain_ranking shop_env one_pair_monitor ''k'' ''dataget.ai'' new_world))
   \<and> positions_present (get_dict shop_env (clock new_world) (request one_pair_monitor ''k''))
   \<and> position (fst (check_domain_ranking shop_env one_pair_monitor ''k'' ''dataget.ai'' new_world)) \<noteq> None
   \<and> link (fst (check_domain_ranking shop_env one_pair_monitor ''k'' ''dataget.ai'' new_world)) \<noteq> None
   \<and> \<not> found (fst (check_domain_ranking shop_env one_pair_monitor ''k'' ''absent.io'' new_world))
   \<and> link (fst (check_domain_ranking shop_env one_pair_monitor ''k'' ''absent.io'' new_world)) = None"
proof -
  have a: "found (fst (check_domain_ranking shop_env one_pair_monitor ''k'' ''dataget.ai'' new_world))"
    by (simp add: check_domain_ranking_result shop_env_def shop_results_def link_matches_def)
  have b: "positions_present (get_dict shop_env (clock new_world) (request one_pair_monitor ''k''))"
    by (simp add: positions_present_def shop_env_def shop_results_def)
  have c: "\<not> found (fst (check_domain_ranking shop_env one_pair_monitor ''k'' ''absent.io'' new_world))"
    by (simp add: check_domain_ranking_result shop_env_def shop_results_def link_matches_def
        not_found_def)
  show ?thesis
    using a b c
      check_domain_ranking_invariant [of shop_env one_pair_monitor "''k''" "''dataget.ai''" new_world]
      check_domain_ranking_invariant [of shop_env one_pair_monitor "''k''" "''absent.io''" new_world]
    by simp
qed

section \<open>Facts about the change detector\<close>

lemma length_sort_descending [simp]: "length (sort_descending docs) = length docs"
  by (simp add: sort_descending_def)

lemma limit_two_length: "2 \<le> length (limit_docs 2 docs) \<longleftrightarrow> 2 \<le> length docs"
  by (auto simp: limit_docs_def)

lemma limit_two_second:
  "2 \<le> length docs \<Longrightarrow> limit_docs 2 docs ! Suc 0 = docs ! Suc 0"
  by (simp add: limit_docs_def)

lemma get_ranking_history_returns:
  "find_error env (clock w) = None \<Longrightarrow>
   get_ranking_history env kw dn limit w =
     (Inr (limit_docs limit
        (rev (sort_key timestamp (filter (\<lambda>d. keyword d = kw \<and> domain d = dn) (collection w))))),
      emit (Find kw dn limit) w)"
  by (simp add: get_ranking_history_def sort_descending_def find_docs_def Let_def)

lemma sorted_timestamps_filter:
  assumes "sorted_wrt (<) (map timestamp docs)"
  shows "sort_key timestamp (filter P docs) = filter P docs"
proof -
  have "sorted_wrt (<) (map timestamp (filter P docs))"
    using assms by (induction docs) auto
  then have "sorted (map timestamp (filter P docs))"
    by (rule sorted_wrt_mono_rel [rotated]) simp
  then show ?thesis
    by (rule sort_key_id_if_sorted)
qed

text \<open>
  Claim C1. Let \<open>stored\<close> be the documents of the collection whose keyword and domain
  are those of the pair, and \<open>recent\<close> those documents by decreasing timestamp. Provided
  the query on the store returns, \<open>check_changes\<close> reports a change (prints it and, if
  a callback is registered, calls it with the change) exactly when at least two documents
  are stored for the pair and the position of the second most recent one differs from
  the position of the current observation, a null position differing from any non-null
  one; the change carries the position of that second most recent document as the
  previous position and the current one as the current position. Otherwise the only
  effect is the query. When the timestamps of the collection grow with the insertions,
  the most recent documents are the last ones inserted for the pair.
\<close>

theorem check_changes_emits_iff:
  assumes "find_error env (clock w) = None"
    and "stored = filter (\<lambda>d. keyword d = kw \<and> domain d = dn) (collection w)"
    and "recent = rev (sort_key timestamp stored)"
  shows "trace (snd (check_changes env m kw dn current w)) =
     trace w @ Find kw dn 2 #
       (if 2 \<le> length stored \<and> position (recent ! 1) \<noteq> position current
        then Print (RankingChanged (position (recent ! 1)) (position current)) #
             (case on_change_callback m of
                None \<Rightarrow> []
              | Some callback \<Rightarrow>
                  [Callback \<lparr>ci_keyword = kw, ci_domain = dn,
                             previous_position = position (recent ! 1),
                             current_position = position current,
                             ci_timestamp = clock w\<rparr>])
        else [])
    \<and> (sorted_wrt (<) (map timestamp (collection w)) \<longrightarrow> recent = rev stored)"
proof -
  have len: "length recent = length stored"
    using assms(3) by simp
  have hist: "get_ranking_history env kw dn 2 w = (Inr (limit_docs 2 recent), emit (Find kw dn 2) w)"
    using get_ranking_history_returns [OF assms(1)] assms(2,3) by simp
  have emits: "trace (snd (check_changes env m kw dn current w)) =
     trace w @ Find kw dn 2 #
       (if 2 \<le> length stored \<and> position (recent ! 1) \<noteq> position current
        then Print (RankingChanged (position (recent ! 1)) (position current)) #
             (case on_change_callback m of
                None \<Rightarrow> []
              | Some callback \<Rightarrow>
                  [Callback \<lparr>ci_keyword = kw, ci_domain = dn,
                             previous_position = position (recent ! 1),
                             current_position = position current,
                             ci_timestamp = clock w\<rparr>])
        else [])"
  proof (cases "2 \<le> length stored")
    case True
    then have "limit_docs 2 recent ! Suc 0 = recent ! Suc 0"
      using len by (simp add: limit_two_second)
    then show ?thesis
      using True len
      by (simp add: check_changes_def hist limit_two_length Let_def datetime_now_def
          split: option.splits)
  next
    case False
    then show ?thesis
      using len by (simp add: check_changes_def hist limit_two_length)
  qed
  have order: "sorted_wrt (<) (map timestamp (collection w)) \<longrightarrow> recent = rev stored"
    using assms(2,3) by (simp add: sorted_timestamps_filter)
  from emits order show ?thesis by blast
qed

theorem check_changes_emits_iff_witness:
  "find_error shop_env (clock mixed_world) = None
   \<and> filter (\<lambda>d. keyword d = ''k'' \<and> domain d = ''d.com'') (collection mixed_world) =
       [stored_doc ''k'' ''d.com'' (Some 5) 1, stored_doc ''k'' ''d.com'' (Some 7) 3]
   \<and> sorted_wrt (<) (map timestamp (collection mixed_world))
   \<and> rev (sort_key timestamp
        [stored_doc ''k'' ''d.com'' (Some 5) 1, stored_doc ''k'' ''d.com'' (Some 7) 3]) =
       [stored_doc ''k'' ''d.com'' (Some 7) 3, stored_doc ''k'' ''d.com'' (Some 5) 1]
   \<and> trace (snd (check_changes shop_env (on_change (\<lambda>info. None) one_pair_monitor) ''k'' ''d.com''
        (ranked (Some 7)) mixed_world)) =
     [Find ''k'' ''d.com'' 2, Print (RankingChanged (Some 5) (Some 7)),
      Callback \<lparr>ci_keyword = ''k'', ci_domain = ''d.com'', previous_position = Some 5,
                current_position = Some 7, ci_timestamp = 5\<rparr>]"
proof -
  let ?stored = "[stored_doc ''k'' ''d.com'' (Some 5) 1, stored_doc ''k'' ''d.com'' (Some 7) 3]"
  let ?recent = "[stored_doc ''k'' ''d.com'' (Some 7) 3, stored_doc ''k'' ''d.com'' (Some 5) 1]"
  have a: "find_error shop_env (clock mixed_world) = None"
    by (simp add: shop_env_def)
  have b: "?stored = filter (\<lambda>d. keyword d = ''k'' \<and> domain d = ''d.com'') (collection mixed_world)"
    by (simp add: mixed_world_def stored_doc_def)
  have c: "?recent = rev (sort_key timestamp ?stored)"
    by (simp add: stored_doc_def)
  have d: "sorted_wrt (<) (map timestamp (collection mixed_world))"
    by (simp add: mixed_world_def stored_doc_def)
  show ?thesis
    using check_changes_emits_iff [OF a b c, of "on_change (\<lambda>info. None) one_pair_monitor" "ranked (Some 7)"]
      a b [symmetric] c [symmetric] d
    by (simp add: mixed_world_def stored_doc_def on_change_def ranked_def)
qed

section \<open>Facts about the scheduler\<close>

text \<open>
  Claim C8. \<open>stop\<close> on a monitor that is not running changes nothing and prints that
  the monitor is not running; \<open>start\<close> on a running monitor changes nothing, starts no
  thread, and prints that the monitor is already running. Both return normally.
\<close>

theorem stop_idle_start_running_noop:
  "(\<not> running m \<longrightarrow> stop m w = (Inr (), m, print NotRunning w))
   \<and> (running m \<longrightarrow> start env run_immediately m w = (Inr (), m, print AlreadyRunning w))"
  by (simp add: stop_def start_def)

theorem stop_idle_start_running_noop_witness:
  "\<not> running fresh_monitor
   \<and> stop fresh_monitor new_world = (Inr (), fresh_monitor, print NotRunning new_world)
   \<and> running running_monitor
   \<and> start shop_env True running_monitor new_world =
       (Inr (), running_monitor, print AlreadyRunning new_world)"
proof -
  have a: "\<not> running fresh_monitor"
    by (simp add: fresh_monitor_def KeywordMonitor_def)
  have b: "running running_monitor"
    by (simp add: running_monitor_def)
  show ?thesis
    using a b stop_idle_start_running_noop [of fresh_monitor new_world]
      stop_idle_start_running_noop [of running_monitor new_world shop_env True]
    by simp
qed

text \<open>
  Claim C3, as stated, fails: \<open>configure\<close> checks nothing, so empty lists are stored
  and the call returns normally.
\<close>

theorem configure_accepts_empty_counterexample:
  "fst (configure [] [] Map.empty fresh_monitor new_world) = Inr ()
   \<and> keywords' (fst (snd (configure [] [] Map.empty fresh_monitor new_world))) = []
   \<and> domains (fst (snd (configure [] [] Map.empty fresh_monitor new_world))) = []"
  by (simp add: configure_def Let_def)

text \<open>
  Claim C3, amended. \<open>configure\<close> with an empty keyword list or an empty domain list
  returns normally and calls the search client not at all; it is the following \<open>start\<close>
  of a monitor that is not running that raises the error, a \<open>ValueError\<close>, leaving the
  monitor and the world as they were: no cycle has run and no call has been made.
\<close>

theorem empty_configuration_rejected_by_start:
  assumes "kws = [] \<or> dns = []" and "\<not> running m"
  shows "fst (configure kws dns overrides m w) = Inr ()
    \<and> probes (trace (snd (snd (configure kws dns overrides m w)))) = probes (trace w)
    \<and> start env run_immediately (fst (snd (configure kws dns overrides m w)))
        (snd (snd (configure kws dns overrides m w))) =
      (Inl (ValueError ''Please configure keywords and domains first''),
       fst (snd (configure kws dns overrides m w)),
       snd (snd (configure kws dns overrides m w)))"
  using assms by (auto simp: configure_def start_def Let_def probes_def)

theorem empty_configuration_rejected_by_start_witness:
  "([''k''] = [] \<or> ([]::string list) = []) \<and> \<not> running fresh_monitor
   \<and> fst (start shop_env True (fst (snd (configure [''k''] [] Map.empty fresh_monitor new_world)))
        (snd (snd (configure [''k''] [] Map.empty fresh_monitor new_world)))) =
      Inl (ValueError ''Please configure keywords and domains first'')"
proof -
  have a: "[''k''] = [] \<or> ([]::string list) = []" by simp
  have b: "\<not> running fresh_monitor"
    by (simp add: fresh_monitor_def KeywordMonitor_def)
  show ?thesis
    using empty_configuration_rejected_by_start [OF a b, of Map.empty new_world shop_env True] b
    by simp
qed

text \<open>
  Claim C4 holds for \<open>start\<close> and not for \<open>run_once\<close>: on a monitor that was never
  configured \<open>start\<close> raises before anything else happens, while \<open>run_once\<close>, which has
  no such check, runs a cycle over no pair and returns normally.
\<close>

theorem run_once_unconfigured_returns:
  "fst (run_once env (KeywordMonitor key minutes) w) = Inr ()
   \<and> probes (trace (snd (snd (run_once env (KeywordMonitor key minutes) w)))) = probes (trace w)
   \<and> fst (start env run_immediately (KeywordMonitor key minutes) w) =
       Inl (ValueError ''Please configure keywords and domains first'')"
  by (simp add: run_once_def check_all_def start_def KeywordMonitor_def datetime_now_def
      print_def emit_def probes_def Let_def)


section \<open>Facts about a cycle\<close>

text \<open>
  What each step of a cycle does to the phases, to the number of calls to the search
  client, to the clock and to the collection.
\<close>

lemma phases_append [simp]: "phases (xs @ ys) = phases xs @ phases ys"
  by (simp add: phases_def map_filter_def)

lemma phases_Nil [simp]: "phases [] = []"
  by (simp add: phases_def map_filter_def)

lemma phases_Cons [simp]:
  "phases (e # es) = (case phase_of e of None \<Rightarrow> [] | Some p \<Rightarrow> [p]) @ phases es"
  by (simp add: phases_def map_filter_def split: option.splits)

lemma probes_append [simp]: "probes (xs @ ys) = probes xs + probes ys"
  by (simp add: probes_def)

lemma probes_Nil [simp]: "probes [] = 0"
  by (simp add: probes_def)

lemma probes_Cons [simp]: "probes (e # es) = (if is_probe e then 1 else 0) + probes es"
  by (simp add: probes_def)

lemma check_domain_ranking_frame:
  "phases (trace (snd (check_domain_ranking env m kw dn w))) = phases (trace w)"
  "probes (trace (snd (check_domain_ranking env m kw dn w))) = Suc (probes (trace w))"
  "collection (snd (check_domain_ranking env m kw dn w)) = collection w"
  "clock (snd (check_domain_ranking env m kw dn w)) = clock w"
  by (auto simp: check_domain_ranking_def search_keyword_def for_result_find Let_def
      split: sum.splits option.splits prod.splits)

lemma save_ranking_frame:
  "phases (trace (snd (save_ranking env kw dn rd w))) = phases (trace w)"
  "probes (trace (snd (save_ranking env kw dn rd w))) = probes (trace w)"
  "clock (snd (save_ranking env kw dn rd w)) = Suc (clock w)"
  by (auto simp: save_ranking_def datetime_now_def Let_def
      split: option.splits)

lemma check_changes_frame:
  "phases (trace (snd (check_changes env m kw dn rd w))) = phases (trace w)"
  "probes (trace (snd (check_changes env m kw dn rd w))) = probes (trace w)"
  "collection (snd (check_changes env m kw dn rd w)) = collection w"
  by (auto simp: check_changes_def get_ranking_history_def datetime_now_def Let_def
      split: option.splits prod.splits sum.splits)

lemma check_changes_ok:
  "store_reliable env \<Longrightarrow> callback_safe m \<Longrightarrow> fst (check_changes env m kw dn rd w) = Inr ()"
  by (auto simp: check_changes_def get_ranking_history_def datetime_now_def Let_def
      store_reliable_def callback_safe_def split: option.splits prod.splits sum.splits)

lemma for_domain_phases:
  "phases (trace (snd (for_domain env m kw dns w))) = phases (trace w)"
proof (induction dns arbitrary: w)
  case Nil
  show ?case by simp
next
  case (Cons dn rest)
  show ?case
    by (simp add: Cons.IH check_domain_ranking_frame save_ranking_frame check_changes_frame
        split_beta split: sum.splits)
qed


lemma save_ranking_ok:
  "store_reliable env \<Longrightarrow> fst (save_ranking env kw dn rd w) = Inr (length (collection w))"
  "store_reliable env \<Longrightarrow>
     stored_keys (snd (save_ranking env kw dn rd w)) = stored_keys w @ [(kw, dn)]"
  by (auto simp: save_ranking_def datetime_now_def Let_def stored_keys_def store_reliable_def)

lemma save_ranking_fail:
  "insert_one_error env (Suc (clock w)) = Some e \<Longrightarrow>
     fst (save_ranking env kw dn rd w) = Inl e"
  "insert_one_error env (Suc (clock w)) = Some e \<Longrightarrow>
     collection (snd (save_ranking env kw dn rd w)) = collection w"
  by (auto simp: save_ranking_def datetime_now_def Let_def)

lemma stored_keys_emit [simp]: "stored_keys (emit e w) = stored_keys w"
  by (simp add: stored_keys_def)

lemma stored_keys_print [simp]: "stored_keys (print msg w) = stored_keys w"
  by (simp add: stored_keys_def)

lemma stored_keys_clock [simp]: "stored_keys (w\<lparr>clock := t\<rparr>) = stored_keys w"
  by (simp add: stored_keys_def)

lemma stored_keys_check_domain_ranking [simp]:
  "stored_keys (snd (check_domain_ranking env m kw dn w)) = stored_keys w"
  by (simp add: stored_keys_def check_domain_ranking_frame)

lemma stored_keys_check_changes [simp]:
  "stored_keys (snd (check_changes env m kw dn rd w)) = stored_keys w"
  by (simp add: stored_keys_def check_changes_frame)

lemma for_domain_ok:
  assumes "store_reliable env" and "callback_safe m"
  shows "fst (for_domain env m kw dns w) = Inr ()
    \<and> stored_keys (snd (for_domain env m kw dns w)) = stored_keys w @ map (Pair kw) dns
    \<and> probes (trace (snd (for_domain env m kw dns w))) = probes (trace w) + length dns"
proof (induction dns arbitrary: w)
  case Nil
  show ?case by simp
next
  case (Cons dn rest)
  show ?case
    by (simp add: Cons.IH save_ranking_ok [OF assms(1)] check_changes_ok [OF assms]
        check_domain_ranking_frame save_ranking_frame check_changes_frame split_beta)
qed

lemma for_keyword_phases:
  "phases (trace (snd (for_keyword env m kws w))) = phases (trace w)"
proof (induction kws arbitrary: w)
  case Nil
  show ?case by simp
next
  case (Cons kw rest)
  show ?case
    by (simp add: Cons.IH for_domain_phases split_beta split: sum.splits)
qed

lemma for_keyword_ok:
  assumes "store_reliable env" and "callback_safe m"
  shows "fst (for_keyword env m kws w) = Inr ()
    \<and> stored_keys (snd (for_keyword env m kws w)) =
        stored_keys w @ List.product kws (domains m)
    \<and> probes (trace (snd (for_keyword env m kws w))) =
        probes (trace w) + length kws * length (domains m)"
proof (induction kws arbitrary: w)
  case Nil
  show ?case by simp
next
  case (Cons kw rest)
  show ?case
    by (simp add: Cons.IH for_domain_ok [OF assms] split_beta)
qed

lemma check_all_phases:
  "phases (trace (snd (check_all env m w))) =
     phases (trace w) @ CycleBegin #
       (case fst (check_all env m w) of Inl e \<Rightarrow> [] | Inr u \<Rightarrow> [CycleEnd])"
  by (simp add: check_all_def datetime_now_def Let_def split_beta for_keyword_phases
      split: sum.splits)

lemma check_all_ok:
  assumes "store_reliable env" and "callback_safe m"
  shows "fst (check_all env m w) = Inr ()"
    and "stored_keys (snd (check_all env m w)) =
           stored_keys w @ List.product (keywords' m) (domains m)"
    and "probes (trace (snd (check_all env m w))) =
           probes (trace w) + length (keywords' m) * length (domains m)"
  by (simp_all add: check_all_def datetime_now_def Let_def split_beta
      for_keyword_ok [OF assms])

lemma check_all_first_save_fails:
  assumes "keywords' m = kw # kws" and "domains m = dn # dns"
    and "insert_one_error env (Suc (Suc (clock w))) = Some e"
  shows "fst (check_all env m w) = Inl e"
    and "collection (snd (check_all env m w)) = collection w"
    and "probes (trace (snd (check_all env m w))) = Suc (probes (trace w))"
  using assms
  by (simp_all add: check_all_def datetime_now_def Let_def split_beta
      save_ranking_fail check_domain_ranking_frame save_ranking_frame)



lemma save_ranking_returns:
  "fst (save_ranking env kw dn rd w) = Inr i \<Longrightarrow>
     stored_keys (snd (save_ranking env kw dn rd w)) = stored_keys w @ [(kw, dn)]"
  by (auto simp: save_ranking_def datetime_now_def Let_def stored_keys_def
      split: option.splits)

lemma for_domain_returns:
  "fst (for_domain env m kw dns w) = Inr u \<Longrightarrow>
     stored_keys (snd (for_domain env m kw dns w)) = stored_keys w @ map (Pair kw) dns
     \<and> probes (trace (snd (for_domain env m kw dns w))) = probes (trace w) + length dns"
proof (induction dns arbitrary: w)
  case Nil
  show ?case by simp
next
  case (Cons dn rest)
  let ?c = "check_domain_ranking env m kw dn w"
  let ?s = "save_ranking env kw dn (fst ?c) (snd ?c)"
  let ?h = "check_changes env m kw dn (fst ?c) (snd ?s)"
  from Cons.prems obtain i where s: "fst ?s = Inr i"
    by (cases "fst ?s") (simp_all add: split_beta)
  from Cons.prems s have h: "fst ?h = Inr ()"
    by (cases "fst ?h") (simp_all add: split_beta)
  from Cons.prems s h
  have rest: "fst (for_domain env m kw rest (emit (Sleep 1) (snd ?h))) = Inr u"
    by (simp add: split_beta)
  have eq: "for_domain env m kw (dn # rest) w =
      for_domain env m kw rest (emit (Sleep 1) (snd ?h))"
    using s h by (simp add: split_beta)
  show ?case
    unfolding eq
    using Cons.IH [OF rest] save_ranking_returns [OF s]
    by (simp add: check_domain_ranking_frame save_ranking_frame check_changes_frame)
qed

lemma for_keyword_returns:
  "fst (for_keyword env m kws w) = Inr u \<Longrightarrow>
     stored_keys (snd (for_keyword env m kws w)) = stored_keys w @ List.product kws (domains m)
     \<and> probes (trace (snd (for_keyword env m kws w))) =
         probes (trace w) + length kws * length (domains m)"
proof (induction kws arbitrary: w)
  case Nil
  show ?case by simp
next
  case (Cons kw rest)
  let ?d = "for_domain env m kw (domains m) w"
  from Cons.prems have d: "fst ?d = Inr ()"
    by (cases "fst ?d") (simp_all add: split_beta)
  from Cons.prems d have rest: "fst (for_keyword env m rest (snd ?d)) = Inr u"
    by (simp add: split_beta)
  have eq: "for_keyword env m (kw # rest) w = for_keyword env m rest (snd ?d)"
    using d by (simp add: split_beta)
  show ?case
    unfolding eq
    using Cons.IH [OF rest] for_domain_returns [OF d]
    by simp
qed


lemma check_all_returns:
  assumes "fst (check_all env m w) = Inr u"
  shows "stored_keys (snd (check_all env m w)) =
           stored_keys w @ List.product (keywords' m) (domains m)"
    and "probes (trace (snd (check_all env m w))) =
           probes (trace w) + length (keywords' m) * length (domains m)"
proof -
  let ?w0 = "print (CycleStarting (clock w)) (w\<lparr>clock := Suc (clock w)\<rparr>)"
  from assms have k: "fst (for_keyword env m (keywords' m) ?w0) = Inr ()"
    by (cases "fst (for_keyword env m (keywords' m) ?w0)")
      (simp_all add: check_all_def datetime_now_def Let_def split_beta)
  show "stored_keys (snd (check_all env m w)) =
           stored_keys w @ List.product (keywords' m) (domains m)"
    using for_keyword_returns [OF k] k
    by (simp add: check_all_def datetime_now_def Let_def split_beta)
  show "probes (trace (snd (check_all env m w))) =
           probes (trace w) + length (keywords' m) * length (domains m)"
    using for_keyword_returns [OF k] k
    by (simp add: check_all_def datetime_now_def Let_def split_beta)
qed







lemma shop_env_reliable: "store_reliable shop_env"
  by (simp add: store_reliable_def shop_env_def)


lemma one_pair_monitor_safe: "callback_safe one_pair_monitor"
  by (simp add: callback_safe_def one_pair_monitor_def fresh_monitor_def KeywordMonitor_def)







section \<open>Facts about the background loop\<close>

lemma monitor_loop_pass:
  assumes "\<not> stop_event m"
  shows "\<exists>w3 out. (out = CycleEnd \<or> out = CycleFailed)
      \<and> phases (trace w3) = phases (trace w) @ [CycleBegin, out, IntervalWait]
      \<and> monitor_loop env (s # later) m w = monitor_loop env later (m\<lparr>stop_event := s\<rparr>) w3"
proof (cases "fst (check_all env m w)")
  case (Inl e)
  let ?w3 = "emit (Wait (interval_minutes m * 60)) (print (ErrorInLoop e) (snd (check_all env m w)))"
  have "phases (trace ?w3) = phases (trace w) @ [CycleBegin, CycleFailed, IntervalWait]"
    using Inl check_all_phases [of env m w] by simp
  moreover have "monitor_loop env (s # later) m w =
      monitor_loop env later (m\<lparr>stop_event := s\<rparr>) ?w3"
    using Inl assms by (simp add: Let_def split_beta)
  ultimately show ?thesis by blast
next
  case (Inr u)
  let ?w3 = "emit (Wait (interval_minutes m * 60)) (snd (check_all env m w))"
  have "phases (trace ?w3) = phases (trace w) @ [CycleBegin, CycleEnd, IntervalWait]"
    using Inr check_all_phases [of env m w] by simp
  moreover have "monitor_loop env (s # later) m w =
      monitor_loop env later (m\<lparr>stop_event := s\<rparr>) ?w3"
    using Inr assms by (simp add: Let_def split_beta)
  ultimately show ?thesis by blast
qed

text \<open>
  Claim C9. As long as the stop event is not set, the loop is still alive after any
  number of passes, whatever the collaborators do: every pass opens a cycle, the cycle
  either completes or raises, in which case the loop reports the error, and in both
  cases the loop goes on to the wait. So the loop leaves only through a set stop event.
  In particular a pass whose cycle raises \<open>e\<close> prints the error, waits, and goes on
  with the next pass.
\<close>

theorem monitor_loop_survives_errors:
  assumes "\<not> stop_event m" and "True \<notin> set sched"
  shows "fst (monitor_loop env sched m w) = Looping
    \<and> (\<exists>outcomes. length outcomes = length sched
          \<and> set outcomes \<subseteq> {CycleEnd, CycleFailed}
          \<and> phases (trace (snd (snd (monitor_loop env sched m w)))) =
              phases (trace w) @ concat (map (\<lambda>out. [CycleBegin, out, IntervalWait]) outcomes))
    \<and> (fst (check_all env m w) = Inl e \<longrightarrow>
         monitor_loop env (s # later) m w =
           monitor_loop env later (m\<lparr>stop_event := s\<rparr>)
             (emit (Wait (interval_minutes m * 60))
                (print (ErrorInLoop e) (snd (check_all env m w)))))"
proof -
  have alive: "fst (monitor_loop env sched m w) = Looping
    \<and> (\<exists>outcomes. length outcomes = length sched
          \<and> set outcomes \<subseteq> {CycleEnd, CycleFailed}
          \<and> phases (trace (snd (snd (monitor_loop env sched m w)))) =
              phases (trace w) @ concat (map (\<lambda>out. [CycleBegin, out, IntervalWait]) outcomes))"
    using assms
  proof (induction sched arbitrary: m w)
    case Nil
    then show ?case by simp
  next
    case (Cons s later)
    from Cons.prems have s: "s = False" and later: "True \<notin> set later" by auto
    obtain w3 out where out: "out = CycleEnd \<or> out = CycleFailed"
      and ph: "phases (trace w3) = phases (trace w) @ [CycleBegin, out, IntervalWait]"
      and eq: "monitor_loop env (s # later) m w = monitor_loop env later (m\<lparr>stop_event := s\<rparr>) w3"
      using monitor_loop_pass [OF Cons.prems(1)] by blast
    have ns: "\<not> stop_event (m\<lparr>stop_event := s\<rparr>)" using s by simp
    from Cons.IH [OF ns later, of w3] obtain outcomes where
      l: "fst (monitor_loop env later (m\<lparr>stop_event := s\<rparr>) w3) = Looping"
      and n: "length outcomes = length later"
      and sub: "set outcomes \<subseteq> {CycleEnd, CycleFailed}"
      and p: "phases (trace (snd (snd (monitor_loop env later (m\<lparr>stop_event := s\<rparr>) w3)))) =
                phases (trace w3) @ concat (map (\<lambda>out. [CycleBegin, out, IntervalWait]) outcomes)"
      by blast
    have "length (out # outcomes) = length (s # later)" using n by simp
    moreover have "set (out # outcomes) \<subseteq> {CycleEnd, CycleFailed}" using out sub by auto
    moreover have "phases (trace (snd (snd (monitor_loop env (s # later) m w)))) =
        phases (trace w) @ concat (map (\<lambda>out. [CycleBegin, out, IntervalWait]) (out # outcomes))"
      using p ph eq by simp
    ultimately show ?case using l eq by metis
  qed
  have caught: "fst (check_all env m w) = Inl e \<longrightarrow>
         monitor_loop env (s # later) m w =
           monitor_loop env later (m\<lparr>stop_event := s\<rparr>)
             (emit (Wait (interval_minutes m * 60))
                (print (ErrorInLoop e) (snd (check_all env m w))))"
    using assms(1) by (simp add: Let_def split_beta)
  from alive caught show ?thesis by blast
qed

theorem monitor_loop_survives_errors_witness:
  "\<not> stop_event one_pair_monitor \<and> True \<notin> set [False, False]
   \<and> fst (check_all broken_store_env one_pair_monitor new_world) = Inl (Exception ''write failed'')
   \<and> fst (monitor_loop broken_store_env [False, False] one_pair_monitor new_world) = Looping
   \<and> phases (trace (snd (snd (monitor_loop broken_store_env [False, False] one_pair_monitor
        new_world)))) =
       [CycleBegin, CycleFailed, IntervalWait, CycleBegin, CycleFailed, IntervalWait]"
proof -
  have a: "\<not> stop_event one_pair_monitor"
    by (simp add: one_pair_monitor_def fresh_monitor_def KeywordMonitor_def)
  have b: "True \<notin> set [False, False]" by simp
  have fail: "fst (check_all broken_store_env m w) = Inl (Exception ''write failed'')"
    if "keywords' m = [''k'']" and "domains m = [''dataget.ai'']" for m w
    using that by (intro check_all_first_save_fails) (simp_all add: broken_store_env_def)
  have k: "keywords' one_pair_monitor = [''k'']" and d: "domains one_pair_monitor = [''dataget.ai'']"
    by (simp_all add: one_pair_monitor_def)
  have p: "phases (trace (snd (snd (monitor_loop broken_store_env [False, False] one_pair_monitor
        new_world)))) =
       [CycleBegin, CycleFailed, IntervalWait, CycleBegin, CycleFailed, IntervalWait]"
    using a by (simp add: Let_def split_beta check_all_phases fail k d new_world_def)
  show ?thesis
    using monitor_loop_survives_errors [OF a b, of broken_store_env new_world
        "Exception ''write failed''" False "[False]"]
      a p fail [OF k d, of new_world]
    by simp
qed


lemma callback_safe_running [simp]:
  "callback_safe (m\<lparr>running := r, stop_event := s\<rparr>) = callback_safe m"
  by (simp add: callback_safe_def)


text \<open>
  Claim C10. On a configured monitor that is not running, with a store and a callback
  that raise nothing, \<open>start\<close> with \<open>run_immediately\<close> runs one full cycle itself,
  probing and storing every pair, and then starts the thread; the first pass of the loop
  runs a second full cycle, probing and storing every pair again, and only then waits:
  two sweeps of all the pairs with no wait between them, the wait being the last effect.
\<close>

theorem start_immediately_runs_two_cycles:
  assumes "\<not> running m" and "keywords' m \<noteq> []" and "domains m \<noteq> []"
    and "store_reliable env" and "callback_safe m"
    and "started = start env True m w"
    and "passed = monitor_loop env [stop_set] (fst (snd started)) (snd (snd started))"
    and "pairs = List.product (keywords' m) (domains m)"
  shows "fst started = Inr ()
    \<and> phases (trace (snd (snd started))) =
        phases (trace w) @ [CycleBegin, CycleEnd, ThreadStarted]
    \<and> stored_keys (snd (snd started)) = stored_keys w @ pairs
    \<and> probes (trace (snd (snd started))) = probes (trace w) + length pairs
    \<and> phases (trace (snd (snd passed))) =
        phases (trace w) @
          [CycleBegin, CycleEnd, ThreadStarted, CycleBegin, CycleEnd, IntervalWait]
    \<and> stored_keys (snd (snd passed)) = stored_keys w @ pairs @ pairs
    \<and> probes (trace (snd (snd passed))) = probes (trace w) + 2 * length pairs
    \<and> last (trace (snd (snd passed))) = Wait (interval_minutes m * 60)
    \<and> pairs \<noteq> []"
proof -
  let ?m1 = "m\<lparr>running := True, stop_event := False\<rparr>"
  let ?v = "print RunningInitialCheck w"
  let ?w1 = "snd (check_all env ?m1 ?v)"
  let ?m2 = "?m1\<lparr>thread := Some Thread\<rparr>"
  let ?w2 = "print (MonitorStarted (interval_minutes ?m2)) (emit ThreadStart ?w1)"
  let ?w3 = "snd (check_all env ?m2 ?w2)"
  have safe1: "callback_safe ?m1" using assms(5) by simp
  have safe2: "callback_safe ?m2" using assms(5) by (simp add: callback_safe_def)
  have ok1: "fst (check_all env ?m1 ?v) = Inr ()"
    by (rule check_all_ok [OF assms(4) safe1])
  have st: "started = (Inr (), ?m2, ?w2)"
    using assms(1-3) ok1 by (simp add: assms(6) start_def Let_def split_beta)
  have ph1: "phases (trace ?w1) = phases (trace w) @ [CycleBegin, CycleEnd]"
    using check_all_phases [of env ?m1 ?v] ok1 by simp
  have k1: "stored_keys ?w1 = stored_keys w @ pairs"
    and p1: "probes (trace ?w1) = probes (trace w) + length pairs"
    using check_all_ok(2,3) [OF assms(4) safe1, of ?v] by (simp_all add: assms(8))
  have ok2: "fst (check_all env ?m2 ?w2) = Inr ()"
    by (rule check_all_ok [OF assms(4) safe2])
  have ph3: "phases (trace ?w3) =
      phases (trace w) @ [CycleBegin, CycleEnd, ThreadStarted, CycleBegin, CycleEnd]"
    using check_all_phases [of env ?m2 ?w2] ok2 ph1 by simp
  have k3: "stored_keys ?w3 = stored_keys w @ pairs @ pairs"
    and p3: "probes (trace ?w3) = probes (trace w) + 2 * length pairs"
    using check_all_ok(2,3) [OF assms(4) safe2, of ?w2] k1 p1 by (simp_all add: assms(8))
  have ps: "snd (snd passed) = emit (Wait (interval_minutes m * 60)) ?w3"
    using ok2 by (simp add: assms(7) st Let_def split_beta)
  have ne: "pairs \<noteq> []"
    using assms(2,3) by (cases "keywords' m"; cases "domains m") (simp_all add: assms(8))
  show ?thesis
    using ph1 k1 p1 ph3 k3 p3 ne by (simp add: st ps)
qed

theorem start_immediately_runs_two_cycles_witness:
  "\<not> running one_pair_monitor \<and> keywords' one_pair_monitor \<noteq> [] \<and> domains one_pair_monitor \<noteq> []
   \<and> store_reliable shop_env \<and> callback_safe one_pair_monitor
   \<and> phases (trace (snd (snd (monitor_loop shop_env [False]
          (fst (snd (start shop_env True one_pair_monitor new_world)))
          (snd (snd (start shop_env True one_pair_monitor new_world))))))) =
        [CycleBegin, CycleEnd, ThreadStarted, CycleBegin, CycleEnd, IntervalWait]
   \<and> stored_keys (snd (snd (monitor_loop shop_env [False]
          (fst (snd (start shop_env True one_pair_monitor new_world)))
          (snd (snd (start shop_env True one_pair_monitor new_world)))))) =
        [(''k'', ''dataget.ai''), (''k'', ''dataget.ai'')]
   \<and> probes (trace (snd (snd (monitor_loop shop_env [False]
          (fst (snd (start shop_env True one_pair_monitor new_world)))
          (snd (snd (start shop_env True one_pair_monitor new_world))))))) = 2"
proof -
  have a: "\<not> running one_pair_monitor"
    by (simp add: one_pair_monitor_def fresh_monitor_def KeywordMonitor_def)
  have b: "keywords' one_pair_monitor \<noteq> []" and c: "domains one_pair_monitor \<noteq> []"
    by (simp_all add: one_pair_monitor_def)
  have e: "phases (trace new_world) = []" "stored_keys new_world = []"
    "probes (trace new_world) = 0"
    by (simp_all add: new_world_def stored_keys_def)
  have pairs: "List.product (keywords' one_pair_monitor) (domains one_pair_monitor) =
      [(''k'', ''dataget.ai'')]"
    by (simp add: one_pair_monitor_def)
  show ?thesis
    using start_immediately_runs_two_cycles [OF a b c shop_env_reliable one_pair_monitor_safe refl refl refl,
        of new_world False]
      a b c e pairs shop_env_reliable one_pair_monitor_safe
    by simp
qed

end
